theory Spec2Isabelle
  imports Complex_Main "HOL-Library.Word" "HOL-Library.Log_Nat"
begin

unbundle bit_operations_syntax

section \<open>The SHT3X driver: data model\<close>

text \<open>
  The driver is the Go package \<open>sht3x\<close>. A Go \<open>byte\<close> is an 8-bit word, a
  \<open>uint16\<close> a 16-bit word. A slice of bytes is a list; the nil slice and the empty
  slice are both \<open>[]\<close> (the package never compares a slice with nil). The calls of
  the logger \<open>lg\<close> write to the log only and are left out.
\<close>

type_synonym byte = "8 word"
type_synonym uint16 = "16 word"

subsection \<open>Command byte sequences\<close>

text \<open>
  The package-level variables of the source. Nothing in the package assigns to them or
  to their elements, so they are constants here.
\<close>

definition CMD_SINGLE_MEASURE_HIGH_CSE :: "byte list" where
  "CMD_SINGLE_MEASURE_HIGH_CSE = [0x2C, 0x06]"

definition CMD_SINGLE_MEASURE_MEDIUM_CSE :: "byte list" where
  "CMD_SINGLE_MEASURE_MEDIUM_CSE = [0x2C, 0x0D]"

definition CMD_SINGLE_MEASURE_LOW_CSE :: "byte list" where
  "CMD_SINGLE_MEASURE_LOW_CSE = [0x2C, 0x10]"

definition CMD_SINGLE_MEASURE_HIGH :: "byte list" where
  "CMD_SINGLE_MEASURE_HIGH = [0x24, 0x00]"

definition CMD_SINGLE_MEASURE_MEDIUM :: "byte list" where
  "CMD_SINGLE_MEASURE_MEDIUM = [0x24, 0x0B]"

definition CMD_SINGLE_MEASURE_LOW :: "byte list" where
  "CMD_SINGLE_MEASURE_LOW = [0x24, 0x16]"

definition CMD_PERIOD_FETCH :: "byte list" where
  "CMD_PERIOD_FETCH = [0xE0, 0x00]"

definition CMD_ART :: "byte list" where
  "CMD_ART = [0x2B, 0x32]"

definition CMD_BREAK :: "byte list" where
  "CMD_BREAK = [0x30, 0x93]"

definition CMD_RESET :: "byte list" where
  "CMD_RESET = [0x30, 0xA2]"

subsection \<open>Measure repeatability\<close>

text \<open>
  \<open>MeasureRepeatability\<close> and \<open>PeriodicMeasure\<close> are Go \<open>int\<close> types, so a value
  of the type need not be one of the three named constants. The constants are
  \<open>iota + 1\<close> for \<open>iota\<close> = 0, 1, 2.
\<close>

type_synonym MeasureRepeatability = int
type_synonym PeriodicMeasure = int

definition RepeatabilityLow :: MeasureRepeatability where
  "RepeatabilityLow = 0 + 1"

definition RepeatabilityMedium :: MeasureRepeatability where
  "RepeatabilityMedium = 1 + 1"

definition RepeatabilityHigh :: MeasureRepeatability where
  "RepeatabilityHigh = 2 + 1"

text \<open>
  A \<open>time.Duration\<close> is a count of nanoseconds; \<open>time.Microsecond\<close> is 1000 of them.
\<close>

type_synonym Duration = int

definition Microsecond :: Duration where
  "Microsecond = 1000"

definition GetMeasureTime :: "MeasureRepeatability \<Rightarrow> Duration" where
  "GetMeasureTime v =
     (if v = RepeatabilityLow then 4500 * Microsecond
      else if v = RepeatabilityMedium then 6500 * Microsecond
      else if v = RepeatabilityHigh then 15500 * Microsecond
      else 0)"

subsection \<open>The sensor\<close>

record SHT3X =
  lastStatusReg :: "uint16 option"
  lastCmd :: "byte list"
  lastPeriodic :: PeriodicMeasure
  lastPrecision :: MeasureRepeatability

definition NewSHT3X :: SHT3X where
  "NewSHT3X = \<lparr>lastStatusReg = None, lastCmd = [], lastPeriodic = 0, lastPrecision = 0\<rparr>"

subsection \<open>Errors\<close>

text \<open>
  \<open>TransportError\<close> is an error returned by the bus, with its message.
  \<open>ChecksumMismatch crc calcCRC\<close> is the error that \<open>readDataWithCRCCheck\<close> builds
  with \<open>errors.New\<close> from the two bytes it formats into the message: the checksum
  from the sensor first, the calculated one second. \<open>Panic\<close> is a Go run-time panic.
\<close>

datatype error =
    TransportError string
  | ChecksumMismatch byte byte
  | Panic string

subsection \<open>The bus and the clock\<close>

text \<open>
  The bus (\<open>i2c.I2C\<close> of the external package go-i2c) and the clock are outside the
  package. What the driver does to them is recorded in a trace of events, and what the
  bus answers is given by two functions of the trace so far: \<open>write_result\<close> is the
  error of \<open>WriteBytes\<close> (\<open>None\<close> when it succeeds), \<open>read_result\<close> the error of
  \<open>ReadBytes\<close> or the bytes it delivers. Every theorem holds for every such bus.
\<close>

datatype event =
    WriteBytes "byte list"
  | ReadBytes nat
  | Sleep Duration

record I2C =
  write_result :: "event list \<Rightarrow> byte list \<Rightarrow> string option"
  read_result :: "event list \<Rightarrow> nat \<Rightarrow> string + byte list"

section \<open>Reading checksummed blocks\<close>

text \<open>
  One element of the anonymous struct slice of \<open>readDataWithCRCCheck\<close>: the array
  \<open>Data [2]byte\<close> is a pair, \<open>Data[:2]\<close> the list of its two bytes.
\<close>

record DataBlock =
  Data :: "byte \<times> byte"
  CRC :: byte

definition slice2 :: "byte \<times> byte \<Rightarrow> byte list" where
  "slice2 d = [fst d, snd d]"

text \<open>
  Modelled from the spec: one bit iteration and one byte of the checksum of section 4.1
  of the specification, whose function \<open>calcCRC_SHT3X\<close> is not among the source
  files. A byte is exclusive-ored into the running 8-bit register; then, for 8 bit
  iterations: if the high bit of the register is set, shift left and exclusive-or with
  the polynomial 0x31, else shift left; the register stays 8 bits wide.
\<close>

definition crcBit :: "byte \<Rightarrow> byte" where
  "crcBit seed =
     (if seed AND 0x80 \<noteq> 0 then push_bit 1 seed XOR 0x31 else push_bit 1 seed)"

definition crcByte :: "byte \<Rightarrow> byte \<Rightarrow> byte" where
  "crcByte seed b = (crcBit ^^ 8) (seed XOR b)"

text \<open>
  Modelled from the spec: \<open>calcCRC_SHT3X\<close> is called by the source but its body is
  not among the source files. Section 4.1 of the specification: the register starts at
  the seed and takes in the bytes of the data one after the other.
\<close>

definition calcCRC_SHT3X :: "byte \<Rightarrow> byte list \<Rightarrow> byte" where
  "calcCRC_SHT3X seed buf = foldl crcByte seed buf"

text \<open>
  Modelled from the spec: \<open>getU16BE\<close> is called by the source but its body is not
  among the source files. The specification reads the 2 data bytes of a block as a
  big-endian 16-bit word: the first byte is the high one. On a slice of fewer than 2
  bytes the indexing panics.
\<close>

definition getU16BE :: "byte list \<Rightarrow> error + uint16" where
  "getU16BE buf =
     (case buf of
        b0 # b1 # _ \<Rightarrow> Inr (push_bit 8 (ucast b0) OR ucast b1)
      | _ \<Rightarrow> Inl (Panic ''index out of range''))"

text \<open>
  Modelled from the spec: the partition of the bytes read into 3-byte blocks in order,
  2 data bytes and 1 checksum byte each (sections 3 and 4.3 of the specification); it is
  the decoding step of \<open>readDataToStruct\<close>, which is not among the source files.
\<close>

fun toBlocks :: "byte list \<Rightarrow> DataBlock list" where
  "toBlocks (d0 # d1 # c # rest) = \<lparr>Data = (d0, d1), CRC = c\<rparr> # toBlocks rest"
| "toBlocks _ = []"

text \<open>
  Modelled from the spec: \<open>readDataToStruct\<close> is called by the source but its body
  is not among the source files. Section 4.3 of the specification: it reads
  \<open>byteCount\<close> bytes from the bus and partitions them into blocks; a bus that fails, or
  that returns fewer bytes than requested, gives a transport error. The byte order
  argument has no effect on a struct of single bytes and is left out; the blocks are
  returned instead of being stored through the last argument.
\<close>

definition readDataToStruct ::
  "I2C \<Rightarrow> event list \<Rightarrow> int \<Rightarrow> (error + DataBlock list) \<times> event list" where
  "readDataToStruct i2c tr byteCount =
     (let n = nat byteCount; tr1 = tr @ [ReadBytes n] in
      case read_result i2c tr n of
        Inl msg \<Rightarrow> (Inl (TransportError msg), tr1)
      | Inr buf \<Rightarrow>
          if length buf < n then (Inl (TransportError ''short read''), tr1)
          else (Inr (toBlocks (take n buf)), tr1))"

text \<open>
  The loop of \<open>readDataWithCRCCheck\<close>. The slice \<open>data\<close> has \<open>blockCount\<close>
  elements, so the loop over \<open>i < blockCount\<close> visits the elements of \<open>data\<close> in
  order; \<open>results\<close> is the accumulator, which \<open>append\<close> extends at its end. The
  debug log line of the else branch has no effect on the result.
\<close>

fun crcLoop :: "DataBlock list \<Rightarrow> uint16 list \<Rightarrow> error + uint16 list" where
  "crcLoop [] results = Inr results"
| "crcLoop (d # data) results =
     (let calcCRC = calcCRC_SHT3X 0xFF (slice2 (Data d));
          crc = CRC d
      in if calcCRC \<noteq> crc then Inl (ChecksumMismatch crc calcCRC)
         else (case getU16BE (slice2 (Data d)) of
                 Inl e \<Rightarrow> Inl e
               | Inr w \<Rightarrow> crcLoop data (results @ [w])))"

definition blockSize :: int where
  "blockSize = 2 + 1"

text \<open>
  \<open>make\<close> panics on a negative length. The function does not change the sensor, so it
  returns the result and the trace only.
\<close>

definition readDataWithCRCCheck ::
  "SHT3X \<Rightarrow> I2C \<Rightarrow> event list \<Rightarrow> int \<Rightarrow> (error + uint16 list) \<times> event list" where
  "readDataWithCRCCheck v i2c tr blockCount =
     (if blockCount < 0 then (Inl (Panic ''makeslice: len out of range''), tr)
      else (case readDataToStruct i2c tr (blockSize * blockCount) of
              (Inl err, tr1) \<Rightarrow> (Inl err, tr1)
            | (Inr data, tr1) \<Rightarrow> (crcLoop data [], tr1)))"

section \<open>Measuring\<close>

text \<open>
  A function with a pointer receiver returns the sensor as it leaves it, and the trace.
  A returned \<open>error\<close> is an \<open>error option\<close>, \<open>None\<close> for nil.
\<close>

definition initiateMeasure ::
  "SHT3X \<Rightarrow> I2C \<Rightarrow> event list \<Rightarrow> byte list \<Rightarrow> MeasureRepeatability
     \<Rightarrow> error option \<times> SHT3X \<times> event list" where
  "initiateMeasure v i2c tr cmd precision =
     (let tr1 = tr @ [WriteBytes cmd] in
      case write_result i2c tr cmd of
        Some msg \<Rightarrow> (Some (TransportError msg), v, tr1)
      | None \<Rightarrow>
          (let v1 = v\<lparr>lastCmd := cmd\<rparr>;
               pause = GetMeasureTime precision
           in (None, v1, tr1 @ [Sleep pause])))"

text \<open>
  The switch of \<open>ReadUncompTemperatureAndHumidity\<close> has no default case: for any other
  precision \<open>cmd\<close> stays the nil slice.
\<close>

definition selectCmd :: "MeasureRepeatability \<Rightarrow> byte list" where
  "selectCmd precision =
     (if precision = RepeatabilityLow then CMD_SINGLE_MEASURE_LOW
      else if precision = RepeatabilityMedium then CMD_SINGLE_MEASURE_MEDIUM
      else if precision = RepeatabilityHigh then CMD_SINGLE_MEASURE_HIGH
      else [])"

text \<open>
  The function returns three values: the two words and the error. Indexing \<open>data[0]\<close>
  and \<open>data[1]\<close> panics on a slice of fewer than 2 words; the two words of a panic
  mean nothing.
\<close>

definition ReadUncompTemperatureAndHumidity ::
  "SHT3X \<Rightarrow> I2C \<Rightarrow> event list \<Rightarrow> MeasureRepeatability
     \<Rightarrow> (uint16 \<times> uint16 \<times> error option) \<times> SHT3X \<times> event list" where
  "ReadUncompTemperatureAndHumidity v i2c tr precision =
     (let cmd = selectCmd precision in
      case initiateMeasure v i2c tr cmd precision of
        (Some err, v1, tr1) \<Rightarrow> ((0, 0, Some err), v1, tr1)
      | (None, v1, tr1) \<Rightarrow>
          (case readDataWithCRCCheck v1 i2c tr1 2 of
             (Inl err, tr2) \<Rightarrow> ((0, 0, Some err), v1, tr2)
           | (Inr data, tr2) \<Rightarrow>
               (case data of
                  t # h # _ \<Rightarrow> ((t, h, None), v1, tr2)
                | _ \<Rightarrow> ((0, 0, Some (Panic ''index out of range'')), v1, tr2))))"

definition Reset :: "SHT3X \<Rightarrow> I2C \<Rightarrow> event list \<Rightarrow> error option \<times> SHT3X \<times> event list" where
  "Reset v i2c tr =
     (let cmd = CMD_RESET; tr1 = tr @ [WriteBytes cmd] in
      case write_result i2c tr cmd of
        Some msg \<Rightarrow> (Some (TransportError msg), v, tr1)
      | None \<Rightarrow> (None, v\<lparr>lastCmd := cmd\<rparr>, tr1 @ [Sleep (Microsecond * 1500)]))"

section \<open>Converting raw words\<close>

subsection \<open>Arithmetic on float32\<close>

text \<open>
  The converters compute in Go's \<open>float32\<close>, the IEEE 754 binary32 format. A finite
  \<open>float32\<close> is modelled by the rational number it stands for, and an operation by
  the exact operation followed by \<open>fl32\<close>, the rounding to the nearest binary32 value,
  ties to the even significand: for \<open>2 ^ e \<le> \<bar>x\<bar> < 2 ^ (e + 1)\<close> the neighbouring values
  are \<open>2 ^ (e - 23)\<close> apart (24 significant bits), and below \<open>2 ^ - 126\<close> they are
  \<open>2 ^ - 149\<close> apart. Infinities and NaN are not modelled: on a 16-bit word no value of
  the converters exceeds \<open>2 ^ 25\<close> in magnitude, and they divide by 65535 only.
  \<open>ilog2 x\<close> is the exponent \<open>e\<close> of a positive \<open>x\<close>, found from the bit lengths
  of its numerator and denominator.
\<close>

type_synonym float32 = rat

definition round_half_even :: "rat \<Rightarrow> int" where
  "round_half_even y =
     (let f = \<lfloor>y\<rfloor>; d = y - of_int f
      in if d < 1 / 2 then f else if 1 / 2 < d then f + 1 else if even f then f else f + 1)"

definition ilog2 :: "rat \<Rightarrow> int" where
  "ilog2 x =
     (let (p, q) = quotient_of x; e0 = bitlen p - bitlen q
      in if 2 powi e0 \<le> x then e0 else e0 - 1)"

definition fl32 :: "rat \<Rightarrow> float32" where
  "fl32 x =
     (if x = 0 then 0
      else (let e = max (ilog2 \<bar>x\<bar>) (- 126); u = 2 powi (e - 23)
            in of_int (round_half_even (x / u)) * u))"

text \<open>The conversion \<open>float32(ut)\<close> of a \<open>uint16\<close>.\<close>

definition float32_of_uint16 :: "uint16 \<Rightarrow> float32" where
  "float32_of_uint16 w = fl32 (of_nat (unat w))"

text \<open>
  Modelled from the spec: the rounding of section 4.4 of the specification to the
  nearest integer, half away from zero; it is the rounding step of \<open>round32\<close>, which
  is not among the source files.
\<close>

definition round_half_away :: "rat \<Rightarrow> int" where
  "round_half_away y = (if 0 \<le> y then \<lfloor>y + 1 / 2\<rfloor> else - \<lfloor>- y + 1 / 2\<rfloor>)"

text \<open>
  Modelled from the spec: \<open>round32\<close> is called by the converters but its body is not
  among the source files. Section 4.4 of the specification: the value is rounded to the
  given number of decimal places (2 at every call), half away from zero, and returned as
  a 32-bit floating-point value.
\<close>

definition round32 :: "float32 \<Rightarrow> nat \<Rightarrow> float32" where
  "round32 x prec = fl32 (of_int (round_half_away (x * 10 ^ prec)) / 10 ^ prec)"

subsection \<open>The converters\<close>

text \<open>
  Go evaluates \<open>float32(ut)*175/(0x10000-1) - 45\<close> from left to right, each operation
  in \<open>float32\<close>; the untyped constants become \<open>float32\<close> values, which they are
  exactly. The receiver is not used.
\<close>

definition uncompHumidityToRelativeHumidity :: "uint16 \<Rightarrow> float32" where
  "uncompHumidityToRelativeHumidity uh =
     (let rh = fl32 (fl32 (float32_of_uint16 uh * 100) / (0x10000 - 1));
          rh2 = round32 rh 2
      in rh2)"

definition uncompTemperatureToCelsius :: "uint16 \<Rightarrow> float32" where
  "uncompTemperatureToCelsius ut =
     (let temp = fl32 (fl32 (fl32 (float32_of_uint16 ut * 175) / (0x10000 - 1)) - 45);
          temp2 = round32 temp 2
      in temp2)"

definition uncompTemperatureToFarenheit :: "uint16 \<Rightarrow> float32" where
  "uncompTemperatureToFarenheit ut =
     (let temp = fl32 (fl32 (fl32 (float32_of_uint16 ut * 315) / (0x10000 - 1)) - 49);
          temp2 = round32 temp 2
      in temp2)"

definition ReadTemperatureAndRelativeHumidity ::
  "SHT3X \<Rightarrow> I2C \<Rightarrow> event list \<Rightarrow> MeasureRepeatability
     \<Rightarrow> (float32 \<times> float32 \<times> error option) \<times> SHT3X \<times> event list" where
  "ReadTemperatureAndRelativeHumidity v i2c tr precision =
     (case ReadUncompTemperatureAndHumidity v i2c tr precision of
        ((ut, urh, Some err), v1, tr1) \<Rightarrow> ((0, 0, Some err), v1, tr1)
      | ((ut, urh, None), v1, tr1) \<Rightarrow>
          ((uncompTemperatureToCelsius ut, uncompHumidityToRelativeHumidity urh, None),
           v1, tr1))"

definition ReadTemperatureAndRelativeHumidityFarenheit ::
  "SHT3X \<Rightarrow> I2C \<Rightarrow> event list \<Rightarrow> MeasureRepeatability
     \<Rightarrow> (float32 \<times> float32 \<times> error option) \<times> SHT3X \<times> event list" where
  "ReadTemperatureAndRelativeHumidityFarenheit v i2c tr precision =
     (case ReadUncompTemperatureAndHumidity v i2c tr precision of
        ((ut, urh, Some err), v1, tr1) \<Rightarrow> ((0, 0, Some err), v1, tr1)
      | ((ut, urh, None), v1, tr1) \<Rightarrow>
          ((uncompTemperatureToFarenheit ut, uncompHumidityToRelativeHumidity urh, None),
           v1, tr1))"

section \<open>Buses and frames for concrete runs\<close>

text \<open>
  A bus that answers every write with \<open>w\<close> and every read with \<open>r\<close>, and two
  frames of two blocks each: in \<open>frameOK\<close> both checksums are right, in \<open>frameBad\<close>
  the checksum of the second block is wrong.
\<close>

definition scriptedI2C :: "string option \<Rightarrow> string + byte list \<Rightarrow> I2C" where
  "scriptedI2C w r = \<lparr>write_result = (\<lambda>tr cmd. w), read_result = (\<lambda>tr n. r)\<rparr>"

definition frameOK :: "byte list" where
  "frameOK = [0xBE, 0xEF, 0x92, 0x00, 0x00, 0x81]"

definition frameBad :: "byte list" where
  "frameBad = [0xBE, 0xEF, 0x92, 0x00, 0x00, 0x80]"

section \<open>Properties of the block reader\<close>

subsection \<open>Partition into blocks\<close>

lemma length_toBlocks: "length (toBlocks bs) = length bs div 3"
  by (induction bs rule: toBlocks.induct) auto

lemma nth_toBlocks:
  "i < length bs div 3 \<Longrightarrow>
   toBlocks bs ! i = \<lparr>Data = (bs ! (3 * i), bs ! (3 * i + 1)), CRC = bs ! (3 * i + 2)\<rparr>"
proof (induction bs arbitrary: i rule: toBlocks.induct)
  case (1 d0 d1 c rest)
  then show ?case by (cases i) auto
qed auto

lemma length_toBlocks_take:
  "3 * n \<le> length buf \<Longrightarrow> length (toBlocks (take (3 * n) buf)) = n"
  by (simp add: length_toBlocks)

lemma nth_toBlocks_take:
  assumes "3 * n \<le> length buf" and "i < n"
  shows "toBlocks (take (3 * n) buf) ! i =
         \<lparr>Data = (buf ! (3 * i), buf ! (3 * i + 1)), CRC = buf ! (3 * i + 2)\<rparr>"
proof -
  have "i < length (take (3 * n) buf) div 3"
    using assms by simp
  then show ?thesis
    using assms by (simp add: nth_toBlocks)
qed

subsection \<open>Checksums and big-endian words\<close>

lemma crc_BEEF: "calcCRC_SHT3X 0xFF [0xBE, 0xEF] = 0x92"
  by code_simp

lemma crc_0000: "calcCRC_SHT3X 0xFF [0x00, 0x00] = 0x81"
  by code_simp

lemma getU16BE_slice2:
  "getU16BE (slice2 d) = Inr (push_bit 8 (ucast (fst d)) OR ucast (snd d))"
  by (simp add: getU16BE_def slice2_def)

lemma unat_be16: "unat (push_bit 8 (ucast (b0::byte)) OR ucast (b1::byte) :: uint16) = 256 * unat b0 + unat b1"
proof -
  have b0: "unat b0 < 256" and b1: "unat b1 < 256"
    using unsigned_less [of b0] unsigned_less [of b1] by simp_all
  have "(push_bit 8 (ucast b0) OR ucast b1 :: uint16) = word_cat b0 b1"
    using word_cat_eq_push_bit_or [of b0 b1, where 'c = 16] by simp
  also have "\<dots> = push_bit 8 (ucast b0) + ucast b1"
    using word_cat_eq [of b0 b1, where 'c = 16] by simp
  finally have "unat (push_bit 8 (ucast b0) OR ucast b1 :: uint16)
      = (unat (push_bit 8 (ucast b0) :: uint16) + unat (ucast b1 :: uint16)) mod 2 ^ 16"
    by (simp add: unat_word_ariths)
  moreover have "unat (ucast b1 :: uint16) = unat b1"
    using b1 by (simp add: unsigned_ucast_eq take_bit_eq_mod)
  moreover have "unat (push_bit 8 (ucast b0) :: uint16) = 256 * unat b0"
  proof -
    have "unat (ucast b0 :: uint16) = unat b0"
      using b0 by (simp add: unsigned_ucast_eq take_bit_eq_mod)
    then have "unat ((ucast b0 :: uint16) * 256) = (unat b0 * 256) mod 2 ^ 16"
      by (simp add: unat_word_ariths)
    then show ?thesis using b0 by (simp add: push_bit_eq_mult)
  qed
  ultimately show ?thesis using b0 b1 by simp
qed

subsection \<open>The checking loop\<close>

lemma crcLoop_ok:
  "(\<And>d. d \<in> set data \<Longrightarrow> CRC d = calcCRC_SHT3X 0xFF (slice2 (Data d))) \<Longrightarrow>
   crcLoop data results =
     Inr (results @ map (\<lambda>d. push_bit 8 (ucast (fst (Data d))) OR ucast (snd (Data d))) data)"
  by (induction data arbitrary: results) (auto simp: getU16BE_slice2 Let_def)

lemma crcLoop_first_bad:
  "i < length data \<Longrightarrow>
   CRC (data ! i) \<noteq> calcCRC_SHT3X 0xFF (slice2 (Data (data ! i))) \<Longrightarrow>
   (\<And>k. k < i \<Longrightarrow> CRC (data ! k) = calcCRC_SHT3X 0xFF (slice2 (Data (data ! k)))) \<Longrightarrow>
   crcLoop data results =
     Inl (ChecksumMismatch (CRC (data ! i)) (calcCRC_SHT3X 0xFF (slice2 (Data (data ! i)))))"
proof (induction data arbitrary: i results)
  case Nil
  then show ?case by simp
next
  case (Cons d data)
  show ?case
  proof (cases i)
    case 0
    with Cons.prems show ?thesis by (simp add: Let_def)
  next
    case (Suc j)
    have head: "CRC d = calcCRC_SHT3X 0xFF (slice2 (Data d))"
      using Cons.prems(3) [of 0] Suc by simp
    have "crcLoop data (results @ [push_bit 8 (ucast (fst (Data d))) OR ucast (snd (Data d))]) =
      Inl (ChecksumMismatch (CRC (data ! j)) (calcCRC_SHT3X 0xFF (slice2 (Data (data ! j)))))"
    proof (rule Cons.IH)
      show "j < length data" using Cons.prems(1) Suc by simp
      show "CRC (data ! j) \<noteq> calcCRC_SHT3X 0xFF (slice2 (Data (data ! j)))"
        using Cons.prems(2) Suc by simp
      fix k assume "k < j"
      then show "CRC (data ! k) = calcCRC_SHT3X 0xFF (slice2 (Data (data ! k)))"
        using Cons.prems(3) [of "Suc k"] Suc by simp
    qed
    with head Suc show ?thesis by (simp add: Let_def getU16BE_slice2)
  qed
qed

lemma readDataToStruct_ok:
  assumes "read_result i2c tr (3 * n) = Inr buf" and "3 * n \<le> length buf"
  shows "readDataToStruct i2c tr (3 * int n) = (Inr (toBlocks (take (3 * n) buf)), tr @ [ReadBytes (3 * n)])"
proof -
  have "nat (3 * int n) = 3 * n" by simp
  with assms show ?thesis
    unfolding readDataToStruct_def Let_def by simp
qed

lemma readDataWithCRCCheck_blocks:
  assumes "read_result i2c tr (3 * n) = Inr buf" and "3 * n \<le> length buf"
  shows "readDataWithCRCCheck v i2c tr (int n) =
           (crcLoop (toBlocks (take (3 * n) buf)) [], tr @ [ReadBytes (3 * n)])"
  using readDataToStruct_ok [OF assms]
  by (simp add: readDataWithCRCCheck_def blockSize_def)

lemma readDataWithCRCCheck_negative:
  "blockCount < 0 \<Longrightarrow>
   readDataWithCRCCheck v i2c tr blockCount = (Inl (Panic ''makeslice: len out of range''), tr)"
  by (simp add: readDataWithCRCCheck_def)

subsection \<open>A block with a wrong checksum\<close>

text \<open>
  Claim C1. Let the bus deliver the \<open>3 * blockCount\<close> bytes \<open>buf\<close>, block \<open>i\<close> being
  the bytes \<open>3 * i\<close>, \<open>3 * i + 1\<close> (data) and \<open>3 * i + 2\<close> (checksum). If the
  checksum byte of some block differs from the checksum computed with seed 0xFF over its
  two data bytes, then \<open>readDataWithCRCCheck\<close> returns an error and no words: the
  error is the checksum mismatch of the first such block \<open>j\<close>, and it carries the
  received checksum byte and the computed one.
\<close>

theorem readDataWithCRCCheck_mismatch:
  assumes nonneg: "0 \<le> blockCount"
    and rd: "read_result i2c tr (nat (3 * blockCount)) = Inr buf"
    and len: "nat (3 * blockCount) \<le> length buf"
    and i: "i < nat blockCount"
    and bad: "buf ! (3 * i + 2) \<noteq> calcCRC_SHT3X 0xFF [buf ! (3 * i), buf ! (3 * i + 1)]"
  shows "\<exists>j\<le>i. buf ! (3 * j + 2) \<noteq> calcCRC_SHT3X 0xFF [buf ! (3 * j), buf ! (3 * j + 1)] \<and>
           readDataWithCRCCheck v i2c tr blockCount =
             (Inl (ChecksumMismatch (buf ! (3 * j + 2))
                     (calcCRC_SHT3X 0xFF [buf ! (3 * j), buf ! (3 * j + 1)])),
              tr @ [ReadBytes (nat (3 * blockCount))])"
proof -
  define n where "n = nat blockCount"
  define data where "data = toBlocks (take (3 * n) buf)"
  let ?bad = "\<lambda>k. buf ! (3 * k + 2) \<noteq> calcCRC_SHT3X 0xFF [buf ! (3 * k), buf ! (3 * k + 1)]"
  have bc: "blockCount = int n" and n3: "nat (3 * blockCount) = 3 * n"
    using nonneg by (simp_all add: n_def)
  have len': "3 * n \<le> length buf" using len n3 by simp
  have run: "readDataWithCRCCheck v i2c tr blockCount = (crcLoop data [], tr @ [ReadBytes (3 * n)])"
    using readDataWithCRCCheck_blocks [of i2c tr n buf v] rd len' n3
    by (simp add: bc data_def)
  have blk: "data ! k = \<lparr>Data = (buf ! (3 * k), buf ! (3 * k + 1)), CRC = buf ! (3 * k + 2)\<rparr>"
    if "k < n" for k
    using nth_toBlocks_take [OF len' that] by (simp add: data_def)
  have ldata: "length data = n"
    using length_toBlocks_take [OF len'] by (simp add: data_def)
  define j where "j = (LEAST k. ?bad k)"
  have jbad: "?bad j" unfolding j_def using bad by (rule LeastI)
  have jle: "j \<le> i" unfolding j_def using bad by (rule Least_le)
  have jmin: "\<not> ?bad k" if "k < j" for k
    using not_less_Least that unfolding j_def by blast
  have jn: "j < n" using jle i by (simp add: n_def)
  have "crcLoop data [] =
     Inl (ChecksumMismatch (CRC (data ! j)) (calcCRC_SHT3X 0xFF (slice2 (Data (data ! j)))))"
  proof (rule crcLoop_first_bad)
    show "j < length data" using jn ldata by simp
    show "CRC (data ! j) \<noteq> calcCRC_SHT3X 0xFF (slice2 (Data (data ! j)))"
      using jbad blk [OF jn] by (simp add: slice2_def)
    fix k assume "k < j"
    then show "CRC (data ! k) = calcCRC_SHT3X 0xFF (slice2 (Data (data ! k)))"
      using jmin [of k] blk [of k] jn by (simp add: slice2_def)
  qed
  then have "readDataWithCRCCheck v i2c tr blockCount =
     (Inl (ChecksumMismatch (buf ! (3 * j + 2))
             (calcCRC_SHT3X 0xFF [buf ! (3 * j), buf ! (3 * j + 1)])),
      tr @ [ReadBytes (nat (3 * blockCount))])"
    using run blk [OF jn] n3 by (simp add: slice2_def)
  with jbad jle show ?thesis by blast
qed

theorem readDataWithCRCCheck_mismatch_witness:
  "(0::int) \<le> 2 \<and>
   read_result (scriptedI2C None (Inr frameBad)) [] (nat (3 * 2)) = Inr frameBad \<and>
   nat (3 * 2) \<le> length frameBad \<and>
   (1::nat) < nat 2 \<and>
   frameBad ! (3 * 1 + 2) \<noteq> calcCRC_SHT3X 0xFF [frameBad ! (3 * 1), frameBad ! (3 * 1 + 1)] \<and>
   (\<exists>j\<le>1. frameBad ! (3 * j + 2) \<noteq> calcCRC_SHT3X 0xFF [frameBad ! (3 * j), frameBad ! (3 * j + 1)] \<and>
      readDataWithCRCCheck NewSHT3X (scriptedI2C None (Inr frameBad)) [] 2 =
        (Inl (ChecksumMismatch (frameBad ! (3 * j + 2))
                (calcCRC_SHT3X 0xFF [frameBad ! (3 * j), frameBad ! (3 * j + 1)])),
         [] @ [ReadBytes (nat (3 * 2))]))"
proof -
  have h1: "(0::int) \<le> 2" by simp
  have h2: "read_result (scriptedI2C None (Inr frameBad)) [] (nat (3 * 2)) = Inr frameBad"
    by (simp add: scriptedI2C_def)
  have h3: "nat (3 * 2) \<le> length frameBad" by (simp add: frameBad_def)
  have h4: "(1::nat) < nat 2" by simp
  have h5: "frameBad ! (3 * 1 + 2) \<noteq> calcCRC_SHT3X 0xFF [frameBad ! (3 * 1), frameBad ! (3 * 1 + 1)]"
    by (simp add: frameBad_def crc_0000)
  show ?thesis
    using h1 h2 h3 h4 h5 readDataWithCRCCheck_mismatch [OF h1 h2 h3 h4 h5, of NewSHT3X]
    by blast
qed

subsection \<open>All checksums right\<close>

text \<open>
  Claim C2. Let the bus deliver the \<open>3 * blockCount\<close> bytes \<open>buf\<close>. If the checksum
  byte of every block equals the checksum computed with seed 0xFF over its two data bytes,
  then \<open>readDataWithCRCCheck\<close> returns exactly \<open>blockCount\<close> words, and word \<open>i\<close>
  is the big-endian value of the two data bytes of block \<open>i\<close>: 256 times the first
  byte plus the second.
\<close>

theorem readDataWithCRCCheck_words:
  assumes nonneg: "0 \<le> blockCount"
    and rd: "read_result i2c tr (nat (3 * blockCount)) = Inr buf"
    and len: "nat (3 * blockCount) \<le> length buf"
    and good: "\<forall>i < nat blockCount.
                 buf ! (3 * i + 2) = calcCRC_SHT3X 0xFF [buf ! (3 * i), buf ! (3 * i + 1)]"
  shows "\<exists>ws. readDataWithCRCCheck v i2c tr blockCount =
                 (Inr ws, tr @ [ReadBytes (nat (3 * blockCount))]) \<and>
              int (length ws) = blockCount \<and>
              (\<forall>i < nat blockCount.
                 unat (ws ! i) = 256 * unat (buf ! (3 * i)) + unat (buf ! (3 * i + 1)))"
proof -
  define n where "n = nat blockCount"
  define data where "data = toBlocks (take (3 * n) buf)"
  define word where
    "word = (\<lambda>d::DataBlock. push_bit 8 (ucast (fst (Data d))) OR ucast (snd (Data d)) :: uint16)"
  have bc: "blockCount = int n" and n3: "nat (3 * blockCount) = 3 * n"
    using nonneg by (simp_all add: n_def)
  have len': "3 * n \<le> length buf" using len n3 by simp
  have run: "readDataWithCRCCheck v i2c tr blockCount = (crcLoop data [], tr @ [ReadBytes (3 * n)])"
    using readDataWithCRCCheck_blocks [of i2c tr n buf v] rd len' n3
    by (simp add: bc data_def)
  have blk: "data ! k = \<lparr>Data = (buf ! (3 * k), buf ! (3 * k + 1)), CRC = buf ! (3 * k + 2)\<rparr>"
    if "k < n" for k
    using nth_toBlocks_take [OF len' that] by (simp add: data_def)
  have ldata: "length data = n"
    using length_toBlocks_take [OF len'] by (simp add: data_def)
  have "CRC d = calcCRC_SHT3X 0xFF (slice2 (Data d))" if "d \<in> set data" for d
  proof -
    from that obtain k where k: "k < n" and d: "d = data ! k"
      using ldata by (auto simp: in_set_conv_nth)
    show ?thesis using good k blk [OF k] by (simp add: d slice2_def n_def)
  qed
  then have loop: "crcLoop data [] = Inr (map word data)"
    using crcLoop_ok [of data "[]"] by (simp add: word_def)
  have vals: "unat (map word data ! k) = 256 * unat (buf ! (3 * k)) + unat (buf ! (3 * k + 1))"
    if "k < nat blockCount" for k
  proof -
    have k: "k < n" using that by (simp add: n_def)
    show ?thesis using k ldata blk [OF k] by (simp add: word_def unat_be16)
  qed
  have res: "readDataWithCRCCheck v i2c tr blockCount =
               (Inr (map word data), tr @ [ReadBytes (nat (3 * blockCount))])"
    using run loop n3 by simp
  have cnt: "int (length (map word data)) = blockCount"
    using ldata bc by simp
  show ?thesis
    using res cnt vals by blast
qed

theorem readDataWithCRCCheck_words_witness:
  "(0::int) \<le> 2 \<and>
   read_result (scriptedI2C None (Inr frameOK)) [] (nat (3 * 2)) = Inr frameOK \<and>
   nat (3 * 2) \<le> length frameOK \<and>
   frameOK ! 2 = calcCRC_SHT3X 0xFF [frameOK ! 0, frameOK ! 1] \<and>
   frameOK ! 5 = calcCRC_SHT3X 0xFF [frameOK ! 3, frameOK ! 4] \<and>
   (\<exists>ws. readDataWithCRCCheck NewSHT3X (scriptedI2C None (Inr frameOK)) [] 2 =
            (Inr ws, [ReadBytes 6]) \<and>
         int (length ws) = 2 \<and> unat (ws ! 0) = 0xBEEF \<and> unat (ws ! 1) = 0)"
proof -
  have h1: "(0::int) \<le> 2" by simp
  have h2: "read_result (scriptedI2C None (Inr frameOK)) [] (nat (3 * 2)) = Inr frameOK"
    by (simp add: scriptedI2C_def)
  have h3: "nat (3 * 2) \<le> length frameOK" by (simp add: frameOK_def)
  have c0: "frameOK ! 2 = calcCRC_SHT3X 0xFF [frameOK ! 0, frameOK ! 1]"
    by (simp add: frameOK_def crc_BEEF)
  have c1: "frameOK ! 5 = calcCRC_SHT3X 0xFF [frameOK ! 3, frameOK ! 4]"
    by (simp add: frameOK_def crc_0000)
  have h4: "\<forall>i < nat 2. frameOK ! (3 * i + 2) =
              calcCRC_SHT3X 0xFF [frameOK ! (3 * i), frameOK ! (3 * i + 1)]"
  proof (intro allI impI)
    fix i :: nat assume "i < nat 2"
    then have "i = 0 \<or> i = 1" by auto
    then show "frameOK ! (3 * i + 2) = calcCRC_SHT3X 0xFF [frameOK ! (3 * i), frameOK ! (3 * i + 1)]"
      by (auto simp: frameOK_def crc_BEEF crc_0000)
  qed
  obtain ws where run: "readDataWithCRCCheck NewSHT3X (scriptedI2C None (Inr frameOK)) [] 2 =
        (Inr ws, [] @ [ReadBytes (nat (3 * 2))])"
    and len: "int (length ws) = 2"
    and vals: "\<forall>i < nat 2. unat (ws ! i) =
                 256 * unat (frameOK ! (3 * i)) + unat (frameOK ! (3 * i + 1))"
    using readDataWithCRCCheck_words [OF h1 h2 h3 h4, of NewSHT3X] by blast
  have v0: "unat (ws ! 0) = 0xBEEF"
    using vals [rule_format, of 0] by (simp add: frameOK_def)
  have v1: "unat (ws ! 1) = 0"
    using vals [rule_format, of 1] by (simp add: frameOK_def)
  have run': "readDataWithCRCCheck NewSHT3X (scriptedI2C None (Inr frameOK)) [] 2 =
        (Inr ws, [ReadBytes 6])"
    using run by simp
  show ?thesis
    using h1 h2 h3 c0 c1 run' len v0 v1 by blast
qed

section \<open>Properties of the measurement\<close>

subsection \<open>What a read of two blocks returns\<close>

lemma readDataToStruct_length:
  "readDataToStruct i2c tr (int n) = (Inr data, tr1) \<Longrightarrow> length data = n div 3"
  by (auto simp: readDataToStruct_def Let_def length_toBlocks split: sum.splits if_splits)

lemma readDataToStruct_trace:
  "snd (readDataToStruct i2c tr byteCount) = tr @ [ReadBytes (nat byteCount)]"
  by (auto simp: readDataToStruct_def Let_def split: sum.splits)

lemma crcLoop_length:
  "crcLoop data results = Inr ws \<Longrightarrow> length ws = length results + length data"
  by (induction data arbitrary: results) (auto simp: Let_def split: if_splits sum.splits)

lemma readDataWithCRCCheck_two:
  assumes "readDataWithCRCCheck v i2c tr 2 = (Inr ws, tr2)"
  shows "length ws = 2"
proof -
  obtain r tr1 where rd: "readDataToStruct i2c tr (int 6) = (r, tr1)"
    by (cases "readDataToStruct i2c tr (int 6)")
  show ?thesis
  proof (cases r)
    case (Inl e)
    with assms rd show ?thesis by (simp add: readDataWithCRCCheck_def blockSize_def)
  next
    case (Inr data)
    with rd have "length data = 2"
      using readDataToStruct_length [of i2c tr 6 data tr1] by simp
    moreover have "crcLoop data [] = Inr ws"
      using assms rd Inr by (simp add: readDataWithCRCCheck_def blockSize_def)
    ultimately show ?thesis using crcLoop_length [of data "[]" ws] by simp
  qed
qed

lemma readDataWithCRCCheck_trace:
  "0 \<le> blockCount \<Longrightarrow>
   snd (readDataWithCRCCheck v i2c tr blockCount) = tr @ [ReadBytes (nat (3 * blockCount))]"
  using readDataToStruct_trace [of i2c tr "3 * blockCount"]
  by (auto simp: readDataWithCRCCheck_def blockSize_def split: prod.splits sum.splits)

lemma run_frameOK:
  "readDataWithCRCCheck v (scriptedI2C w (Inr frameOK)) tr 2 = (Inr [0xBEEF, 0x0000], tr @ [ReadBytes 6])"
  by (simp add: readDataWithCRCCheck_def blockSize_def readDataToStruct_def scriptedI2C_def
      frameOK_def Let_def slice2_def crc_BEEF crc_0000 getU16BE_def)

lemma run_frameBad:
  "readDataWithCRCCheck v (scriptedI2C w (Inr frameBad)) tr 2 =
     (Inl (ChecksumMismatch 0x80 0x81), tr @ [ReadBytes 6])"
  by (simp add: readDataWithCRCCheck_def blockSize_def readDataToStruct_def scriptedI2C_def
      frameBad_def Let_def slice2_def crc_BEEF crc_0000 getU16BE_def)

subsection \<open>The steps of a measurement\<close>

lemma initiateMeasure_fail:
  "write_result i2c tr cmd = Some msg \<Longrightarrow>
   initiateMeasure v i2c tr cmd precision = (Some (TransportError msg), v, tr @ [WriteBytes cmd])"
  by (simp add: initiateMeasure_def)

lemma initiateMeasure_ok:
  "write_result i2c tr cmd = None \<Longrightarrow>
   initiateMeasure v i2c tr cmd precision =
     (None, v\<lparr>lastCmd := cmd\<rparr>, tr @ [WriteBytes cmd, Sleep (GetMeasureTime precision)])"
  by (simp add: initiateMeasure_def)

lemma selectCmd_simps:
  "selectCmd RepeatabilityLow = [0x24, 0x16]"
  "selectCmd RepeatabilityMedium = [0x24, 0x0B]"
  "selectCmd RepeatabilityHigh = [0x24, 0x00]"
  by (simp_all add: selectCmd_def RepeatabilityLow_def RepeatabilityMedium_def
      RepeatabilityHigh_def CMD_SINGLE_MEASURE_LOW_def CMD_SINGLE_MEASURE_MEDIUM_def
      CMD_SINGLE_MEASURE_HIGH_def)

lemma selectCmd_other:
  "precision \<notin> {RepeatabilityLow, RepeatabilityMedium, RepeatabilityHigh} \<Longrightarrow>
   selectCmd precision = []"
  by (simp add: selectCmd_def)

lemma ReadUncomp_write_fail:
  "write_result i2c tr (selectCmd precision) = Some msg \<Longrightarrow>
   ReadUncompTemperatureAndHumidity v i2c tr precision =
     ((0, 0, Some (TransportError msg)), v, tr @ [WriteBytes (selectCmd precision)])"
  by (simp add: ReadUncompTemperatureAndHumidity_def initiateMeasure_fail)

lemma ReadUncomp_read_fail:
  assumes "write_result i2c tr (selectCmd precision) = None"
    and "readDataWithCRCCheck (v\<lparr>lastCmd := selectCmd precision\<rparr>) i2c
           (tr @ [WriteBytes (selectCmd precision), Sleep (GetMeasureTime precision)]) 2 = (Inl err, tr2)"
  shows "ReadUncompTemperatureAndHumidity v i2c tr precision =
     ((0, 0, Some err), v\<lparr>lastCmd := selectCmd precision\<rparr>, tr2)"
  using assms by (simp add: ReadUncompTemperatureAndHumidity_def initiateMeasure_ok)

lemma ReadUncomp_read_ok:
  assumes "write_result i2c tr (selectCmd precision) = None"
    and rd: "readDataWithCRCCheck (v\<lparr>lastCmd := selectCmd precision\<rparr>) i2c
           (tr @ [WriteBytes (selectCmd precision), Sleep (GetMeasureTime precision)]) 2 = (Inr ws, tr2)"
  shows "length ws = 2 \<and> ReadUncompTemperatureAndHumidity v i2c tr precision =
     ((ws ! 0, ws ! 1, None), v\<lparr>lastCmd := selectCmd precision\<rparr>, tr2)"
proof -
  have "length ws = 2" using readDataWithCRCCheck_two [OF rd] .
  then obtain t h where ws: "ws = [t, h]"
    by (cases ws; cases "tl ws") auto
  show ?thesis
    using assms by (simp add: ReadUncompTemperatureAndHumidity_def initiateMeasure_ok ws)
qed

lemma ReadUncomp_trace_ok:
  assumes "write_result i2c tr (selectCmd precision) = None"
  shows "snd (snd (ReadUncompTemperatureAndHumidity v i2c tr precision)) =
         tr @ [WriteBytes (selectCmd precision), Sleep (GetMeasureTime precision), ReadBytes 6]"
proof -
  let ?v1 = "v\<lparr>lastCmd := selectCmd precision\<rparr>"
  let ?tr1 = "tr @ [WriteBytes (selectCmd precision), Sleep (GetMeasureTime precision)]"
  obtain r tr2 where rd: "readDataWithCRCCheck ?v1 i2c ?tr1 2 = (r, tr2)"
    by (cases "readDataWithCRCCheck ?v1 i2c ?tr1 2")
  have tr2: "tr2 = ?tr1 @ [ReadBytes 6]"
    using readDataWithCRCCheck_trace [of 2 ?v1 i2c ?tr1] rd by simp
  show ?thesis
  proof (cases r)
    case (Inl err)
    then show ?thesis
      using ReadUncomp_read_fail [of i2c tr precision v err tr2] assms rd tr2 by simp
  next
    case (Inr ws)
    then show ?thesis
      using ReadUncomp_read_ok [of i2c tr precision v ws tr2] assms rd tr2 by simp
  qed
qed

lemma ReadUncomp_session_ok:
  assumes "write_result i2c tr (selectCmd precision) = None"
  shows "fst (snd (ReadUncompTemperatureAndHumidity v i2c tr precision)) =
         v\<lparr>lastCmd := selectCmd precision\<rparr>"
proof -
  let ?v1 = "v\<lparr>lastCmd := selectCmd precision\<rparr>"
  let ?tr1 = "tr @ [WriteBytes (selectCmd precision), Sleep (GetMeasureTime precision)]"
  obtain r tr2 where rd: "readDataWithCRCCheck ?v1 i2c ?tr1 2 = (r, tr2)"
    by (cases "readDataWithCRCCheck ?v1 i2c ?tr1 2")
  show ?thesis
  proof (cases r)
    case (Inl err)
    then show ?thesis
      using ReadUncomp_read_fail [of i2c tr precision v err tr2] assms rd by simp
  next
    case (Inr ws)
    then show ?thesis
      using ReadUncomp_read_ok [of i2c tr precision v ws tr2] assms rd by simp
  qed
qed

lemma ReadUncomp_first_event:
  "take (Suc (length tr)) (snd (snd (ReadUncompTemperatureAndHumidity v i2c tr precision))) =
   tr @ [WriteBytes (selectCmd precision)]"
proof (cases "write_result i2c tr (selectCmd precision)")
  case None
  then show ?thesis by (simp add: ReadUncomp_trace_ok)
next
  case (Some msg)
  then show ?thesis by (simp add: ReadUncomp_write_fail)
qed

lemma Reset_fail:
  "write_result i2c tr CMD_RESET = Some msg \<Longrightarrow>
   Reset v i2c tr = (Some (TransportError msg), v, tr @ [WriteBytes CMD_RESET])"
  by (simp add: Reset_def)

lemma Reset_ok:
  "write_result i2c tr CMD_RESET = None \<Longrightarrow>
   Reset v i2c tr =
     (None, v\<lparr>lastCmd := CMD_RESET\<rparr>, tr @ [WriteBytes CMD_RESET, Sleep (Microsecond * 1500)])"
  by (simp add: Reset_def)

lemma Reset_first_event:
  "take (Suc (length tr)) (snd (snd (Reset v i2c tr))) = tr @ [WriteBytes CMD_RESET]"
  by (cases "write_result i2c tr CMD_RESET") (simp_all add: Reset_ok Reset_fail)

text \<open>
  Claim C3. For a precision that is Low, Medium or High,
  \<open>ReadUncompTemperatureAndHumidity\<close> first runs \<open>initiateMeasure\<close> with the
  single-measure command of that precision and that precision, and then, on the sensor
  and the trace that \<open>initiateMeasure\<close> leaves, \<open>readDataWithCRCCheck\<close> with a
  block count of 2. When \<open>initiateMeasure\<close> fails it returns (0, 0, err) with that
  error; when the read fails it returns (0, 0, err) with that error; when both succeed it
  returns the first word as temperature, the second as humidity, and no error. The trace
  shows the order: the write alone when it failed, else the write, the wait and the read
  of 6 bytes.
\<close>

theorem ReadUncomp_steps:
  assumes "precision \<in> {RepeatabilityLow, RepeatabilityMedium, RepeatabilityHigh}"
  shows "ReadUncompTemperatureAndHumidity v i2c tr precision =
     (case initiateMeasure v i2c tr (selectCmd precision) precision of
        (Some err, v1, tr1) \<Rightarrow> ((0, 0, Some err), v1, tr1)
      | (None, v1, tr1) \<Rightarrow>
          (case readDataWithCRCCheck v1 i2c tr1 2 of
             (Inl err, tr2) \<Rightarrow> ((0, 0, Some err), v1, tr2)
           | (Inr ws, tr2) \<Rightarrow> ((ws ! 0, ws ! 1, None), v1, tr2))) \<and>
     selectCmd precision =
       (if precision = RepeatabilityLow then CMD_SINGLE_MEASURE_LOW
        else if precision = RepeatabilityMedium then CMD_SINGLE_MEASURE_MEDIUM
        else CMD_SINGLE_MEASURE_HIGH) \<and>
     (snd (snd (ReadUncompTemperatureAndHumidity v i2c tr precision)) =
        tr @ [WriteBytes (selectCmd precision)] \<or>
      snd (snd (ReadUncompTemperatureAndHumidity v i2c tr precision)) =
        tr @ [WriteBytes (selectCmd precision), Sleep (GetMeasureTime precision), ReadBytes 6])"
proof (intro conjI)
  let ?c = "selectCmd precision"
  show "ReadUncompTemperatureAndHumidity v i2c tr precision =
     (case initiateMeasure v i2c tr ?c precision of
        (Some err, v1, tr1) \<Rightarrow> ((0, 0, Some err), v1, tr1)
      | (None, v1, tr1) \<Rightarrow>
          (case readDataWithCRCCheck v1 i2c tr1 2 of
             (Inl err, tr2) \<Rightarrow> ((0, 0, Some err), v1, tr2)
           | (Inr ws, tr2) \<Rightarrow> ((ws ! 0, ws ! 1, None), v1, tr2)))"
  proof (cases "write_result i2c tr ?c")
    case (Some msg)
    then show ?thesis
      by (simp add: ReadUncomp_write_fail initiateMeasure_fail)
  next
    case None
    let ?v1 = "v\<lparr>lastCmd := ?c\<rparr>"
    let ?tr1 = "tr @ [WriteBytes ?c, Sleep (GetMeasureTime precision)]"
    obtain r tr2 where rd: "readDataWithCRCCheck ?v1 i2c ?tr1 2 = (r, tr2)"
      by (cases "readDataWithCRCCheck ?v1 i2c ?tr1 2")
    show ?thesis
    proof (cases r)
      case (Inl err)
      then show ?thesis
        using ReadUncomp_read_fail [of i2c tr precision v err tr2] rd None
        by (simp add: initiateMeasure_ok)
    next
      case (Inr ws)
      then show ?thesis
        using ReadUncomp_read_ok [of i2c tr precision v ws tr2] rd None
        by (simp add: initiateMeasure_ok)
    qed
  qed
  show "selectCmd precision =
       (if precision = RepeatabilityLow then CMD_SINGLE_MEASURE_LOW
        else if precision = RepeatabilityMedium then CMD_SINGLE_MEASURE_MEDIUM
        else CMD_SINGLE_MEASURE_HIGH)"
    using assms by (auto simp: selectCmd_def)
  show "snd (snd (ReadUncompTemperatureAndHumidity v i2c tr precision)) =
        tr @ [WriteBytes ?c] \<or>
      snd (snd (ReadUncompTemperatureAndHumidity v i2c tr precision)) =
        tr @ [WriteBytes ?c, Sleep (GetMeasureTime precision), ReadBytes 6]"
    by (cases "write_result i2c tr ?c") (simp_all add: ReadUncomp_trace_ok ReadUncomp_write_fail)
qed

theorem ReadUncomp_steps_witness:
  "RepeatabilityHigh \<in> {RepeatabilityLow, RepeatabilityMedium, RepeatabilityHigh} \<and>
   ReadUncompTemperatureAndHumidity NewSHT3X (scriptedI2C None (Inr frameOK)) [] RepeatabilityHigh =
     ((0xBEEF, 0x0000, None), NewSHT3X\<lparr>lastCmd := [0x24, 0x00]\<rparr>,
      [WriteBytes [0x24, 0x00], Sleep 15500000, ReadBytes 6]) \<and>
   ReadUncompTemperatureAndHumidity NewSHT3X (scriptedI2C None (Inr frameBad)) [] RepeatabilityHigh =
     ((0, 0, Some (ChecksumMismatch 0x80 0x81)), NewSHT3X\<lparr>lastCmd := [0x24, 0x00]\<rparr>,
      [WriteBytes [0x24, 0x00], Sleep 15500000, ReadBytes 6]) \<and>
   ReadUncompTemperatureAndHumidity NewSHT3X (scriptedI2C (Some ''EIO'') (Inr frameOK)) [] RepeatabilityHigh =
     ((0, 0, Some (TransportError ''EIO'')), NewSHT3X, [WriteBytes [0x24, 0x00]])"
proof -
  have h: "RepeatabilityHigh \<in> {RepeatabilityLow, RepeatabilityMedium, RepeatabilityHigh}"
    by simp
  have w1: "write_result (scriptedI2C None r) tr c = None" for r tr c
    by (simp add: scriptedI2C_def)
  have w2: "write_result (scriptedI2C (Some ''EIO'') r) tr c = Some ''EIO''" for r tr c
    by (simp add: scriptedI2C_def)
  have t: "GetMeasureTime RepeatabilityHigh = 15500000"
    by (simp add: GetMeasureTime_def RepeatabilityLow_def RepeatabilityMedium_def
        RepeatabilityHigh_def Microsecond_def)
  show ?thesis
    using h ReadUncomp_steps [OF h, of NewSHT3X "scriptedI2C None (Inr frameOK)" "[]"]
      ReadUncomp_steps [OF h, of NewSHT3X "scriptedI2C None (Inr frameBad)" "[]"]
      ReadUncomp_steps [OF h, of NewSHT3X "scriptedI2C (Some ''EIO'') (Inr frameOK)" "[]"]
    by (simp add: selectCmd_simps initiateMeasure_ok initiateMeasure_fail w1 w2 t
        run_frameOK run_frameBad)
qed

subsection \<open>Command selection\<close>

text \<open>
  Claim C6. The command bytes are fixed: whatever the sensor \<open>v\<close>, the bus and the
  trace so far, a measurement with precision Low writes 0x24 0x16, Medium 0x24 0x0B, High
  0x24 0x00, and \<open>Reset\<close> writes 0x30 0xA2, as the first event after the trace. The
  clock-stretching commands are 0x2C 0x06 (High), 0x2C 0x0D (Medium) and 0x2C 0x10 (Low),
  and the reserved commands PeriodicFetch, AcceleratedResponseTime and Break are
  0xE0 0x00, 0x2B 0x32 and 0x30 0x93.
\<close>

theorem command_bytes:
  "CMD_SINGLE_MEASURE_LOW = [0x24, 0x16] \<and>
   CMD_SINGLE_MEASURE_MEDIUM = [0x24, 0x0B] \<and>
   CMD_SINGLE_MEASURE_HIGH = [0x24, 0x00] \<and>
   CMD_RESET = [0x30, 0xA2] \<and>
   CMD_SINGLE_MEASURE_HIGH_CSE = [0x2C, 0x06] \<and>
   CMD_SINGLE_MEASURE_MEDIUM_CSE = [0x2C, 0x0D] \<and>
   CMD_SINGLE_MEASURE_LOW_CSE = [0x2C, 0x10] \<and>
   CMD_PERIOD_FETCH = [0xE0, 0x00] \<and>
   CMD_ART = [0x2B, 0x32] \<and>
   CMD_BREAK = [0x30, 0x93] \<and>
   take (Suc (length tr)) (snd (snd (ReadUncompTemperatureAndHumidity v i2c tr RepeatabilityLow))) =
     tr @ [WriteBytes [0x24, 0x16]] \<and>
   take (Suc (length tr)) (snd (snd (ReadUncompTemperatureAndHumidity v i2c tr RepeatabilityMedium))) =
     tr @ [WriteBytes [0x24, 0x0B]] \<and>
   take (Suc (length tr)) (snd (snd (ReadUncompTemperatureAndHumidity v i2c tr RepeatabilityHigh))) =
     tr @ [WriteBytes [0x24, 0x00]] \<and>
   take (Suc (length tr)) (snd (snd (Reset v i2c tr))) = tr @ [WriteBytes [0x30, 0xA2]]"
proof -
  have "take (Suc (length tr)) (snd (snd (Reset v i2c tr))) = tr @ [WriteBytes [0x30, 0xA2]]"
    using Reset_first_event [of tr v i2c] by (simp add: CMD_RESET_def)
  then show ?thesis
    by (simp add: ReadUncomp_first_event selectCmd_simps CMD_SINGLE_MEASURE_LOW_def
        CMD_SINGLE_MEASURE_MEDIUM_def CMD_SINGLE_MEASURE_HIGH_def CMD_RESET_def
        CMD_SINGLE_MEASURE_HIGH_CSE_def CMD_SINGLE_MEASURE_MEDIUM_CSE_def
        CMD_SINGLE_MEASURE_LOW_CSE_def CMD_PERIOD_FETCH_def CMD_ART_def CMD_BREAK_def)
qed

subsection \<open>The wait\<close>

text \<open>
  Claim C7. \<open>GetMeasureTime\<close> maps Low to 4500 microseconds, Medium to 6500
  microseconds and High to 15500 microseconds, so each defined precision has exactly one
  of these durations; and when the write succeeds, \<open>initiateMeasure\<close> returns no
  error and sleeps for the duration of its precision right after the write.
\<close>

theorem measure_time:
  assumes "precision \<in> {RepeatabilityLow, RepeatabilityMedium, RepeatabilityHigh}"
    and "write_result i2c tr cmd = None"
  shows "GetMeasureTime RepeatabilityLow = 4500 * Microsecond \<and>
         GetMeasureTime RepeatabilityMedium = 6500 * Microsecond \<and>
         GetMeasureTime RepeatabilityHigh = 15500 * Microsecond \<and>
         GetMeasureTime precision \<in> {4500 * Microsecond, 6500 * Microsecond, 15500 * Microsecond} \<and>
         fst (initiateMeasure v i2c tr cmd precision) = None \<and>
         snd (snd (initiateMeasure v i2c tr cmd precision)) =
           tr @ [WriteBytes cmd, Sleep (GetMeasureTime precision)]"
  using assms
  by (auto simp: initiateMeasure_ok GetMeasureTime_def RepeatabilityLow_def
      RepeatabilityMedium_def RepeatabilityHigh_def)

theorem measure_time_witness:
  "RepeatabilityLow \<in> {RepeatabilityLow, RepeatabilityMedium, RepeatabilityHigh} \<and>
   write_result (scriptedI2C None (Inr frameOK)) [] CMD_SINGLE_MEASURE_LOW = None \<and>
   GetMeasureTime RepeatabilityLow = 4500000 \<and>
   fst (initiateMeasure NewSHT3X (scriptedI2C None (Inr frameOK)) []
          CMD_SINGLE_MEASURE_LOW RepeatabilityLow) = None \<and>
   snd (snd (initiateMeasure NewSHT3X (scriptedI2C None (Inr frameOK)) []
          CMD_SINGLE_MEASURE_LOW RepeatabilityLow)) =
     [WriteBytes [0x24, 0x16], Sleep 4500000]"
proof -
  have h1: "RepeatabilityLow \<in> {RepeatabilityLow, RepeatabilityMedium, RepeatabilityHigh}"
    by simp
  have h2: "write_result (scriptedI2C None (Inr frameOK)) [] CMD_SINGLE_MEASURE_LOW = None"
    by (simp add: scriptedI2C_def)
  show ?thesis
    using h1 h2 measure_time [OF h1 h2, of NewSHT3X]
    by (simp add: Microsecond_def CMD_SINGLE_MEASURE_LOW_def)
qed

subsection \<open>A write that fails\<close>

text \<open>
  Claim C8. When the write of the command fails with a message, \<open>initiateMeasure\<close>,
  \<open>Reset\<close> and \<open>ReadUncompTemperatureAndHumidity\<close> each return the transport
  error with that message; the trace is extended by the write alone, so no read and no
  wait follows; and the sensor is returned as it was, its last command unchanged.
\<close>

theorem write_failure:
  "(write_result i2c tr cmd = Some msg \<longrightarrow>
      initiateMeasure v i2c tr cmd precision =
        (Some (TransportError msg), v, tr @ [WriteBytes cmd])) \<and>
   (write_result i2c tr CMD_RESET = Some msg \<longrightarrow>
      Reset v i2c tr = (Some (TransportError msg), v, tr @ [WriteBytes CMD_RESET])) \<and>
   (write_result i2c tr (selectCmd precision) = Some msg \<longrightarrow>
      ReadUncompTemperatureAndHumidity v i2c tr precision =
        ((0, 0, Some (TransportError msg)), v, tr @ [WriteBytes (selectCmd precision)]))"
  by (simp add: initiateMeasure_fail Reset_fail ReadUncomp_write_fail)

theorem write_failure_witness:
  "write_result (scriptedI2C (Some ''EIO'') (Inr frameOK)) [] CMD_SINGLE_MEASURE_LOW = Some ''EIO'' \<and>
   write_result (scriptedI2C (Some ''EIO'') (Inr frameOK)) [] CMD_RESET = Some ''EIO'' \<and>
   write_result (scriptedI2C (Some ''EIO'') (Inr frameOK)) [] (selectCmd RepeatabilityLow) = Some ''EIO'' \<and>
   initiateMeasure NewSHT3X (scriptedI2C (Some ''EIO'') (Inr frameOK)) []
       CMD_SINGLE_MEASURE_LOW RepeatabilityLow =
     (Some (TransportError ''EIO''), NewSHT3X, [WriteBytes [0x24, 0x16]]) \<and>
   Reset NewSHT3X (scriptedI2C (Some ''EIO'') (Inr frameOK)) [] =
     (Some (TransportError ''EIO''), NewSHT3X, [WriteBytes [0x30, 0xA2]]) \<and>
   ReadUncompTemperatureAndHumidity NewSHT3X (scriptedI2C (Some ''EIO'') (Inr frameOK)) []
       RepeatabilityLow =
     ((0, 0, Some (TransportError ''EIO'')), NewSHT3X, [WriteBytes [0x24, 0x16]])"
proof -
  have w: "write_result (scriptedI2C (Some ''EIO'') (Inr frameOK)) [] c = Some ''EIO''" for c
    by (simp add: scriptedI2C_def)
  show ?thesis
    using write_failure [of "scriptedI2C (Some ''EIO'') (Inr frameOK)" "[]"
        CMD_SINGLE_MEASURE_LOW "''EIO''" NewSHT3X RepeatabilityLow]
    by (simp add: w selectCmd_simps CMD_SINGLE_MEASURE_LOW_def CMD_RESET_def)
qed

subsection \<open>What a successful initiation records\<close>

text \<open>
  Claim C9, as amended. For a precision that is Low, Medium or High, when the write
  succeeds \<open>initiateMeasure\<close> returns no error and the sensor differs from the one
  it was given in its last command only, which is the single-measure command written. The
  last precision is left as it was: the source has no assignment to \<open>lastPrecision\<close>.
\<close>

theorem initiateMeasure_records:
  assumes "precision \<in> {RepeatabilityLow, RepeatabilityMedium, RepeatabilityHigh}"
    and "write_result i2c tr (selectCmd precision) = None"
  shows "fst (initiateMeasure v i2c tr (selectCmd precision) precision) = None \<and>
         fst (snd (initiateMeasure v i2c tr (selectCmd precision) precision)) =
           v\<lparr>lastCmd := selectCmd precision\<rparr> \<and>
         lastCmd (fst (snd (initiateMeasure v i2c tr (selectCmd precision) precision))) =
           (if precision = RepeatabilityLow then CMD_SINGLE_MEASURE_LOW
            else if precision = RepeatabilityMedium then CMD_SINGLE_MEASURE_MEDIUM
            else CMD_SINGLE_MEASURE_HIGH) \<and>
         lastPrecision (fst (snd (initiateMeasure v i2c tr (selectCmd precision) precision))) =
           lastPrecision v"
  using assms by (auto simp: initiateMeasure_ok selectCmd_def)

theorem initiateMeasure_records_witness:
  "RepeatabilityMedium \<in> {RepeatabilityLow, RepeatabilityMedium, RepeatabilityHigh} \<and>
   write_result (scriptedI2C None (Inr frameOK)) [] (selectCmd RepeatabilityMedium) = None \<and>
   fst (initiateMeasure NewSHT3X (scriptedI2C None (Inr frameOK)) []
          (selectCmd RepeatabilityMedium) RepeatabilityMedium) = None \<and>
   lastCmd (fst (snd (initiateMeasure NewSHT3X (scriptedI2C None (Inr frameOK)) []
          (selectCmd RepeatabilityMedium) RepeatabilityMedium))) = [0x24, 0x0B] \<and>
   lastPrecision (fst (snd (initiateMeasure NewSHT3X (scriptedI2C None (Inr frameOK)) []
          (selectCmd RepeatabilityMedium) RepeatabilityMedium))) = 0"
proof -
  have h1: "RepeatabilityMedium \<in> {RepeatabilityLow, RepeatabilityMedium, RepeatabilityHigh}"
    by simp
  have h2: "write_result (scriptedI2C None (Inr frameOK)) [] (selectCmd RepeatabilityMedium) = None"
    by (simp add: scriptedI2C_def)
  show ?thesis
    using h1 h2 initiateMeasure_records [OF h1 h2, of NewSHT3X]
    by (simp add: selectCmd_simps NewSHT3X_def)
qed

text \<open>
  Claim C9 as stated fails: on a new sensor and a bus whose writes succeed,
  \<open>initiateMeasure\<close> with the High command and precision High returns no error, and
  the last precision of the sensor is still 0, not High.
\<close>

theorem initiateMeasure_precision_counterexample:
  "write_result (scriptedI2C None (Inr frameOK)) [] CMD_SINGLE_MEASURE_HIGH = None \<and>
   fst (initiateMeasure NewSHT3X (scriptedI2C None (Inr frameOK)) []
          CMD_SINGLE_MEASURE_HIGH RepeatabilityHigh) = None \<and>
   lastPrecision (fst (snd (initiateMeasure NewSHT3X (scriptedI2C None (Inr frameOK)) []
          CMD_SINGLE_MEASURE_HIGH RepeatabilityHigh))) \<noteq> RepeatabilityHigh"
  by (simp add: initiateMeasure_def scriptedI2C_def NewSHT3X_def RepeatabilityHigh_def)

subsection \<open>A precision that is none of the three constants\<close>

text \<open>
  Claim C10. For a precision that is not Low, Medium or High, \<open>GetMeasureTime\<close> is
  0, and \<open>ReadUncompTemperatureAndHumidity\<close> does not reject it: the first thing it
  does is to write the empty byte sequence to the bus, and when that write succeeds it
  records the empty command, sleeps for 0 and goes on to read 6 bytes.
\<close>

theorem invalid_precision:
  assumes "precision \<notin> {RepeatabilityLow, RepeatabilityMedium, RepeatabilityHigh}"
  shows "GetMeasureTime precision = 0 \<and>
         take (Suc (length tr)) (snd (snd (ReadUncompTemperatureAndHumidity v i2c tr precision))) =
           tr @ [WriteBytes []] \<and>
         (write_result i2c tr [] = None \<longrightarrow>
            fst (snd (ReadUncompTemperatureAndHumidity v i2c tr precision)) = v\<lparr>lastCmd := []\<rparr> \<and>
            snd (snd (ReadUncompTemperatureAndHumidity v i2c tr precision)) =
              tr @ [WriteBytes [], Sleep 0, ReadBytes 6])"
proof -
  have c: "selectCmd precision = []" using assms by (rule selectCmd_other)
  have t: "GetMeasureTime precision = 0" using assms by (simp add: GetMeasureTime_def)
  have first: "take (Suc (length tr))
      (snd (snd (ReadUncompTemperatureAndHumidity v i2c tr precision))) = tr @ [WriteBytes []]"
    using ReadUncomp_first_event [of tr v i2c precision] c by simp
  have later: "fst (snd (ReadUncompTemperatureAndHumidity v i2c tr precision)) = v\<lparr>lastCmd := []\<rparr> \<and>
      snd (snd (ReadUncompTemperatureAndHumidity v i2c tr precision)) =
        tr @ [WriteBytes [], Sleep 0, ReadBytes 6]"
    if ok: "write_result i2c tr [] = None"
  proof -
    have w: "write_result i2c tr (selectCmd precision) = None" using ok c by simp
    have "snd (snd (ReadUncompTemperatureAndHumidity v i2c tr precision)) =
        tr @ [WriteBytes [], Sleep 0, ReadBytes 6]"
      using ReadUncomp_trace_ok [OF w, of v] c t by simp
    moreover have "fst (snd (ReadUncompTemperatureAndHumidity v i2c tr precision)) = v\<lparr>lastCmd := []\<rparr>"
      using ReadUncomp_session_ok [OF w, of v] c by simp
    ultimately show ?thesis by simp
  qed
  show ?thesis using t first later by blast
qed

theorem invalid_precision_witness:
  "(0::int) \<notin> {RepeatabilityLow, RepeatabilityMedium, RepeatabilityHigh} \<and>
   write_result (scriptedI2C None (Inr frameOK)) [] [] = None \<and>
   GetMeasureTime 0 = 0 \<and>
   fst (snd (ReadUncompTemperatureAndHumidity NewSHT3X (scriptedI2C None (Inr frameOK)) [] 0)) =
     NewSHT3X\<lparr>lastCmd := []\<rparr> \<and>
   snd (snd (ReadUncompTemperatureAndHumidity NewSHT3X (scriptedI2C None (Inr frameOK)) [] 0)) =
     [WriteBytes [], Sleep 0, ReadBytes 6]"
proof -
  have h1: "(0::int) \<notin> {RepeatabilityLow, RepeatabilityMedium, RepeatabilityHigh}"
    by (simp add: RepeatabilityLow_def RepeatabilityMedium_def RepeatabilityHigh_def)
  have h2: "write_result (scriptedI2C None (Inr frameOK)) [] [] = None"
    by (simp add: scriptedI2C_def)
  show ?thesis
    using h1 h2 invalid_precision [OF h1, of "[]" NewSHT3X "scriptedI2C None (Inr frameOK)"]
    by simp
qed

section \<open>Properties of the converters\<close>

subsection \<open>The error of a rounding\<close>

lemma round_half_even_err: "\<bar>of_int (round_half_even y) - y\<bar> \<le> 1 / 2"
proof -
  have "of_int \<lfloor>y\<rfloor> \<le> y" "y < of_int \<lfloor>y\<rfloor> + 1"
    by linarith+
  then show ?thesis
    by (auto simp: round_half_even_def Let_def)
qed

lemma floor_bounds: "of_int \<lfloor>z\<rfloor> \<le> z \<and> z < of_int \<lfloor>z\<rfloor> + 1" for z :: rat
  by linarith

lemma round_half_away_err: "\<bar>of_int (round_half_away y) - y\<bar> \<le> 1 / 2"
proof (cases "0 \<le> y")
  case True
  then have eq: "round_half_away y = \<lfloor>y + 1 / 2\<rfloor>"
    by (simp add: round_half_away_def)
  show ?thesis
    unfolding eq using floor_bounds [of "y + 1 / 2"] by linarith
next
  case False
  then have eq: "round_half_away y = - \<lfloor>- y + 1 / 2\<rfloor>"
    by (simp add: round_half_away_def)
  show ?thesis
    unfolding eq using floor_bounds [of "- y + 1 / 2"] by (simp only: of_int_minus) linarith
qed

lemma ilog2_le:
  assumes "0 < x"
  shows "2 powi (ilog2 x) \<le> x"
proof -
  obtain p q where pq: "quotient_of x = (p, q)" by (cases "quotient_of x")
  have q: "0 < q" using quotient_of_denom_pos [OF pq] .
  have x: "x = of_int p / of_int q" using quotient_of_div [OF pq] .
  have p: "0 < p" using assms q by (simp add: x zero_less_divide_iff)
  define e0 where "e0 = bitlen p - bitlen q"
  have il: "ilog2 x = (if 2 powi e0 \<le> x then e0 else e0 - 1)"
    by (simp add: ilog2_def pq e0_def Let_def)
  have bp: "2 ^ nat (bitlen p - 1) \<le> p" using bitlen_bounds [OF p] by simp
  have bq: "q < 2 ^ nat (bitlen q)" using bitlen_bounds [OF q] by simp
  have blp: "1 \<le> bitlen p" using p bitlen_eq_zero_iff [of p] bitlen_nonneg [of p] by linarith
  have blq: "0 \<le> bitlen q" by (rule bitlen_nonneg)
  have low: "(2::rat) powi (e0 - 1) \<le> x"
  proof -
    have "(2::rat) powi (e0 - 1) = 2 powi (bitlen p - 1) / 2 powi (bitlen q)"
      by (simp add: e0_def power_int_diff)
    also have "\<dots> = 2 ^ nat (bitlen p - 1) / 2 ^ nat (bitlen q)"
      using blp blq by (simp add: power_int_def)
    also have "\<dots> \<le> of_int p / of_int q"
    proof (rule frac_le)
      show "(0::rat) \<le> of_int p" using p by simp
      have "(of_int (2 ^ nat (bitlen p - 1)) :: rat) \<le> of_int p"
        using bp by (simp only: of_int_le_iff)
      then show "(2::rat) ^ nat (bitlen p - 1) \<le> of_int p" by simp
      show "(0::rat) < of_int q" using q by simp
      have "(of_int q :: rat) \<le> of_int (2 ^ nat (bitlen q))"
        using bq by (simp only: of_int_le_iff)
      then show "(of_int q :: rat) \<le> 2 ^ nat (bitlen q)" by simp
    qed
    finally show ?thesis by (simp add: x)
  qed
  show ?thesis using low by (simp add: il)
qed

lemma ilog2_upper:
  assumes "0 < x" and "x < 2 powi (e + 1)"
  shows "ilog2 x \<le> e"
proof (rule ccontr)
  assume "\<not> ilog2 x \<le> e"
  then have "e + 1 \<le> ilog2 x" by simp
  then have "(2::rat) powi (e + 1) \<le> 2 powi (ilog2 x)"
    by (intro power_int_increasing) simp_all
  with ilog2_le [OF assms(1)] assms(2) show False by simp
qed

lemma fl32_err:
  assumes "\<bar>x\<bar> < 2 powi (e + 1)" and "- 126 \<le> e"
  shows "\<bar>fl32 x - x\<bar> \<le> 2 powi (e - 24)"
proof (cases "x = 0")
  case True
  then show ?thesis by (simp add: fl32_def)
next
  case False
  define E where "E = max (ilog2 \<bar>x\<bar>) (- 126)"
  define u :: rat where "u = 2 powi (E - 23)"
  have u: "0 < u" by (simp add: u_def)
  have E: "E \<le> e"
    using ilog2_upper [of "\<bar>x\<bar>" e] assms False by (simp add: E_def)
  have fl: "fl32 x = of_int (round_half_even (x / u)) * u"
    using False by (simp add: fl32_def Let_def E_def u_def)
  have "fl32 x - x = (of_int (round_half_even (x / u)) - x / u) * u"
    using u by (simp add: fl field_simps)
  then have "\<bar>fl32 x - x\<bar> = \<bar>of_int (round_half_even (x / u)) - x / u\<bar> * u"
    using u by (simp add: abs_mult)
  also have "\<dots> \<le> (1 / 2) * u"
    using round_half_even_err [of "x / u"] u by (intro mult_right_mono) simp_all
  also have "\<dots> = 2 powi (E - 24)"
  proof -
    have "(2::rat) powi (E - 23) = 2 powi (E - 24 + 1)" by simp
    also have "\<dots> = 2 powi (E - 24) * 2"
      by (subst power_int_add) simp_all
    finally show ?thesis by (simp add: u_def)
  qed
  also have "\<dots> \<le> 2 powi (e - 24)"
    using E by (intro power_int_increasing) simp_all
  finally show ?thesis .
qed

lemma fl32_err_16: "\<bar>x\<bar> < 65536 \<Longrightarrow> \<bar>fl32 x - x\<bar> \<le> 1 / 512"
  using fl32_err [of x 15] by (simp add: power_int_def field_simps)

lemma fl32_err_25: "\<bar>x\<bar> < 33554432 \<Longrightarrow> \<bar>fl32 x - x\<bar> \<le> 1"
  using fl32_err [of x 24] by (simp add: power_int_def)

lemma fl32_err_9: "\<bar>x\<bar> < 512 \<Longrightarrow> \<bar>fl32 x - x\<bar> \<le> 1 / 65536"
  using fl32_err [of x 8] by (simp add: power_int_def field_simps)


lemma scaled_err:
  fixes n K :: rat
  assumes n: "0 \<le> n" "n \<le> 65535" and K: "0 < K" "K \<le> 315"
  defines "q \<equiv> fl32 (fl32 (fl32 n * K) / 65535)"
  shows "\<bar>q - n * K / 65535\<bar> \<le> 1 / 65536 + 2 / 65535" and "\<bar>q\<bar> < 316"
proof -
  define a where "a = fl32 n"
  define p where "p = fl32 (a * K)"
  have q: "q = fl32 (p / 65535)" by (simp add: q_def p_def a_def)
  have a: "\<bar>a - n\<bar> \<le> 1 / 512"
    unfolding a_def using n by (intro fl32_err_16) simp
  have "a * K - n * K = (a - n) * K" by (simp add: algebra_simps)
  then have "\<bar>a * K - n * K\<bar> = \<bar>a - n\<bar> * K"
    using K by (simp add: abs_mult)
  also have "\<dots> \<le> (1 / 512) * 315"
    using a K by (intro mult_mono) simp_all
  finally have aK: "\<bar>a * K - n * K\<bar> \<le> 315 / 512" by simp
  have nK0: "0 \<le> n * K" using n K by simp
  have "n * K \<le> 65535 * 315"
    using n K by (intro mult_mono) simp_all
  then have nK: "0 \<le> n * K" "n * K \<le> 20643525" using nK0 by simp_all
  have "\<bar>a * K\<bar> < 33554432" using aK nK by linarith
  then have "\<bar>p - a * K\<bar> \<le> 1"
    unfolding p_def by (rule fl32_err_25)
  then have p: "\<bar>p - n * K\<bar> \<le> 2" using aK by linarith
  have pq: "\<bar>p / 65535 - n * K / 65535\<bar> \<le> 2 / 65535"
  proof -
    have "p / 65535 - n * K / 65535 = (p - n * K) / 65535" by (simp add: diff_divide_distrib)
    then have "\<bar>p / 65535 - n * K / 65535\<bar> = \<bar>p - n * K\<bar> / 65535"
      by (simp only: abs_divide abs_numeral)
    then show ?thesis using p by (simp add: divide_right_mono)
  qed
  have nK': "0 \<le> n * K / 65535" "n * K / 65535 \<le> 315"
    using nK by simp_all
  have "\<bar>p / 65535\<bar> < 512" using pq nK' by linarith
  then have "\<bar>q - p / 65535\<bar> \<le> 1 / 65536"
    unfolding q by (rule fl32_err_9)
  then show "\<bar>q - n * K / 65535\<bar> \<le> 1 / 65536 + 2 / 65535"
    using pq by linarith
  then show "\<bar>q\<bar> < 316" using nK' by linarith
qed

lemma round32_two:
  "\<exists>k::int. round32 t 2 = fl32 (of_int k / 100) \<and> \<bar>(of_int k / 100 :: rat) - t\<bar> \<le> 1 / 200"
proof -
  define k where "k = round_half_away (t * 100)"
  have "\<bar>of_int k - t * 100\<bar> \<le> 1 / 2"
    unfolding k_def by (rule round_half_away_err)
  then have "\<bar>(of_int k / 100 :: rat) - t\<bar> \<le> 1 / 200" by (simp add: field_simps abs_if split: if_splits)
  moreover have "round32 t 2 = fl32 (of_int k / 100)"
    by (simp add: round32_def k_def)
  ultimately show ?thesis by blast
qed

lemma unat16_bounds: "(0::rat) \<le> of_nat (unat (w::uint16)) \<and> (of_nat (unat w) :: rat) \<le> 65535"
proof
  show "(0::rat) \<le> of_nat (unat w)" by (rule of_nat_0_le_iff)
  have "unat w < 2 ^ 16" using unsigned_less [of w] by simp
  then have "unat w \<le> 65535" by simp
  then have "(of_nat (unat w) :: rat) \<le> of_nat 65535" by (simp only: of_nat_le_iff)
  then show "(of_nat (unat w) :: rat) \<le> 65535" by (simp only: of_nat_numeral)
qed


subsection \<open>How close the converters are to the exact formulas\<close>

text \<open>
  Claim C4, as amended. For every 16-bit raw word each converter returns the
  \<open>float32\<close> nearest to a number \<open>k / 100\<close> with an integer \<open>k\<close>, that is a number
  of 2 decimal places, and \<open>k / 100\<close> is within 0.0051 of the exact value of the formula:
  \<open>rawTemp * 175 / 65535 - 45\<close> for Celsius, \<open>rawTemp * 315 / 65535 - 49\<close> for
  Fahrenheit, \<open>rawHumidity * 100 / 65535\<close> for the relative humidity. The converters
  are total: they return a value for every word, and no error.
\<close>

theorem converters_accuracy:
  "(\<exists>k::int. uncompTemperatureToCelsius ut = fl32 (of_int k / 100) \<and>
       \<bar>(of_int k / 100 :: rat) - (of_nat (unat ut) * 175 / 65535 - 45)\<bar> \<le> 51 / 10000) \<and>
   (\<exists>k::int. uncompTemperatureToFarenheit ut = fl32 (of_int k / 100) \<and>
       \<bar>(of_int k / 100 :: rat) - (of_nat (unat ut) * 315 / 65535 - 49)\<bar> \<le> 51 / 10000) \<and>
   (\<exists>k::int. uncompHumidityToRelativeHumidity uh = fl32 (of_int k / 100) \<and>
       \<bar>(of_int k / 100 :: rat) - of_nat (unat uh) * 100 / 65535\<bar> \<le> 51 / 10000)"
proof (intro conjI)
  let ?n = "of_nat (unat ut) :: rat"
  let ?h = "of_nat (unat uh) :: rat"
  show "\<exists>k::int. uncompTemperatureToCelsius ut = fl32 (of_int k / 100) \<and>
       \<bar>(of_int k / 100 :: rat) - (?n * 175 / 65535 - 45)\<bar> \<le> 51 / 10000"
  proof -
    define q where "q = fl32 (fl32 (fl32 ?n * 175) / 65535)"
    define t where "t = fl32 (q - 45)"
    have q: "\<bar>q - ?n * 175 / 65535\<bar> \<le> 1 / 65536 + 2 / 65535" "\<bar>q\<bar> < 316"
      unfolding q_def using scaled_err [of ?n 175] unat16_bounds [of ut] by simp_all
    have "\<bar>q - 45\<bar> < 512" using q(2) by linarith
    then have t: "\<bar>t - (q - 45)\<bar> \<le> 1 / 65536"
      unfolding t_def by (rule fl32_err_9)
    obtain k :: int where k: "round32 t 2 = fl32 (of_int k / 100)"
      "\<bar>(of_int k / 100 :: rat) - t\<bar> \<le> 1 / 200"
      using round32_two [of t] by blast
    have "uncompTemperatureToCelsius ut = fl32 (of_int k / 100)"
      using k(1) by (simp add: uncompTemperatureToCelsius_def float32_of_uint16_def t_def q_def)
    moreover have "\<bar>(of_int k / 100 :: rat) - (?n * 175 / 65535 - 45)\<bar> \<le> 51 / 10000"
      using k(2) t q(1) by linarith
    ultimately show ?thesis by blast
  qed
  show "\<exists>k::int. uncompTemperatureToFarenheit ut = fl32 (of_int k / 100) \<and>
       \<bar>(of_int k / 100 :: rat) - (?n * 315 / 65535 - 49)\<bar> \<le> 51 / 10000"
  proof -
    define q where "q = fl32 (fl32 (fl32 ?n * 315) / 65535)"
    define t where "t = fl32 (q - 49)"
    have q: "\<bar>q - ?n * 315 / 65535\<bar> \<le> 1 / 65536 + 2 / 65535" "\<bar>q\<bar> < 316"
      unfolding q_def using scaled_err [of ?n 315] unat16_bounds [of ut] by simp_all
    have "\<bar>q - 49\<bar> < 512" using q(2) by linarith
    then have t: "\<bar>t - (q - 49)\<bar> \<le> 1 / 65536"
      unfolding t_def by (rule fl32_err_9)
    obtain k :: int where k: "round32 t 2 = fl32 (of_int k / 100)"
      "\<bar>(of_int k / 100 :: rat) - t\<bar> \<le> 1 / 200"
      using round32_two [of t] by blast
    have "uncompTemperatureToFarenheit ut = fl32 (of_int k / 100)"
      using k(1) by (simp add: uncompTemperatureToFarenheit_def float32_of_uint16_def t_def q_def)
    moreover have "\<bar>(of_int k / 100 :: rat) - (?n * 315 / 65535 - 49)\<bar> \<le> 51 / 10000"
      using k(2) t q(1) by linarith
    ultimately show ?thesis by blast
  qed
  show "\<exists>k::int. uncompHumidityToRelativeHumidity uh = fl32 (of_int k / 100) \<and>
       \<bar>(of_int k / 100 :: rat) - ?h * 100 / 65535\<bar> \<le> 51 / 10000"
  proof -
    define q where "q = fl32 (fl32 (fl32 ?h * 100) / 65535)"
    have q: "\<bar>q - ?h * 100 / 65535\<bar> \<le> 1 / 65536 + 2 / 65535"
      unfolding q_def using scaled_err [of ?h 100] unat16_bounds [of uh] by simp_all
    obtain k :: int where k: "round32 q 2 = fl32 (of_int k / 100)"
      "\<bar>(of_int k / 100 :: rat) - q\<bar> \<le> 1 / 200"
      using round32_two [of q] by blast
    have "uncompHumidityToRelativeHumidity uh = fl32 (of_int k / 100)"
      using k(1) by (simp add: uncompHumidityToRelativeHumidity_def float32_of_uint16_def q_def)
    moreover have "\<bar>(of_int k / 100 :: rat) - ?h * 100 / 65535\<bar> \<le> 51 / 10000"
      using k(2) q by linarith
    ultimately show ?thesis by blast
  qed
qed

text \<open>
  Claim C4 as stated fails, since the formula is evaluated in \<open>float32\<close> before the
  rounding to 2 decimal places. For the raw word 49243 the exact Celsius value is
  86.4950026..., which rounds to 86.50; the converter returns the \<open>float32\<close> of 86.49,
  which is more than 0.009 below 86.50. For 12409 the exact Fahrenheit value rounds to
  10.64 and the converter returns the \<open>float32\<close> of 10.65; for 17180 the exact humidity
  rounds to 26.21 and the converter returns the \<open>float32\<close> of 26.22.
\<close>

theorem converters_exact_counterexample:
  "round_half_away ((49243 * 175 / 65535 - 45) * 100) = 8650 \<and>
   uncompTemperatureToCelsius 49243 = fl32 (8649 / 100) \<and>
   9 / 1000 < 8650 / 100 - uncompTemperatureToCelsius 49243 \<and>
   round_half_away ((12409 * 315 / 65535 - 49) * 100) = 1064 \<and>
   uncompTemperatureToFarenheit 12409 = fl32 (1065 / 100) \<and>
   9 / 1000 < uncompTemperatureToFarenheit 12409 - 1064 / 100 \<and>
   round_half_away ((17180 * 100 / 65535) * 100) = 2621 \<and>
   uncompHumidityToRelativeHumidity 17180 = fl32 (2622 / 100) \<and>
   9 / 1000 < uncompHumidityToRelativeHumidity 17180 - 2621 / 100"
  by (simp add: uncompTemperatureToCelsius_def uncompTemperatureToFarenheit_def
      uncompHumidityToRelativeHumidity_def float32_of_uint16_def, code_simp)

subsection \<open>Boundary values\<close>

text \<open>
  Claim C5. The raw word 0x0000 converts to -45 degrees Celsius, -49 degrees Fahrenheit
  and 0 percent relative humidity; 0xFFFF to 130 degrees Celsius, 266 degrees Fahrenheit
  and 100 percent; the raw temperature 0x6666 to 25 degrees Celsius and the raw humidity
  0x8000 to 50 percent. Each of these values is a \<open>float32\<close> exactly.
\<close>

theorem conversion_boundaries:
  "uncompTemperatureToCelsius 0x0000 = - 45 \<and>
   uncompTemperatureToFarenheit 0x0000 = - 49 \<and>
   uncompHumidityToRelativeHumidity 0x0000 = 0 \<and>
   uncompTemperatureToCelsius 0xFFFF = 130 \<and>
   uncompTemperatureToFarenheit 0xFFFF = 266 \<and>
   uncompHumidityToRelativeHumidity 0xFFFF = 100 \<and>
   uncompTemperatureToCelsius 0x6666 = 25 \<and>
   uncompHumidityToRelativeHumidity 0x8000 = 50"
  by (simp add: uncompTemperatureToCelsius_def uncompTemperatureToFarenheit_def
      uncompHumidityToRelativeHumidity_def float32_of_uint16_def, code_simp)

end
